theory Spec2Isabelle
  imports Main
begin

section \<open>Python strings\<close>

text \<open>
  A Python \<open>str\<close> is a sequence of Unicode code points, and \<open>len\<close> counts code
  points.  The model therefore takes a string to be the list of its code points; \<open>ustr\<close>
  embeds an ASCII literal.
\<close>

type_synonym pystr = "nat list"

definition ustr :: "string \<Rightarrow> pystr" where
  "ustr s = map of_char s"

text \<open>
  \<open>str.isspace\<close>, \<open>str.strip()\<close> and the regular expression class \<open>\s\<close> (on
  \<open>str\<close> patterns) all use the same set of code points.
\<close>

definition is_space :: "nat \<Rightarrow> bool" where
  "is_space c \<longleftrightarrow>
     (9 \<le> c \<and> c \<le> 13) \<or> (28 \<le> c \<and> c \<le> 32) \<or> c = 133 \<or> c = 160 \<or> c = 5760 \<or>
     (8192 \<le> c \<and> c \<le> 8202) \<or> c = 8232 \<or> c = 8233 \<or> c = 8239 \<or> c = 8287 \<or> c = 12288"

definition lstrip :: "pystr \<Rightarrow> pystr" where
  "lstrip s = dropWhile is_space s"

definition rstrip :: "pystr \<Rightarrow> pystr" where
  "rstrip s = rev (dropWhile is_space (rev s))"

definition strip :: "pystr \<Rightarrow> pystr" where
  "strip s = rstrip (lstrip s)"

text \<open>
  \<open>str.lower()\<close>, as far as the ASCII letters and digits of its result go.  The
  upper-case ASCII letters go to their lower-case letters, U+0130 goes to \<open>i\<close> followed
  by U+0307, and U+212A (the Kelvin sign) goes to \<open>k\<close>; these are all the code points
  that Python lowers to an ASCII letter.  Any other code point outside ASCII is left in
  place here, where Python may send it to another code point outside ASCII: \<open>lower\<close>
  is the library function on ASCII text, and on any text for the question whether the
  result contains a given ASCII string.  It is used for nothing else.
\<close>

definition lower_cp :: "nat \<Rightarrow> pystr" where
  "lower_cp c =
     (if 65 \<le> c \<and> c \<le> 90 then [c + 32]
      else if c = 304 then [105, 775]
      else if c = 8490 then [107]
      else [c])"

definition lower :: "pystr \<Rightarrow> pystr" where
  "lower s = concat (map lower_cp s)"

text \<open>\<open>s.startswith(p)\<close> and the substring test \<open>needle in hay\<close>.\<close>

fun startswith :: "pystr \<Rightarrow> pystr \<Rightarrow> bool" where
  "startswith s [] = True"
| "startswith [] (p # ps) = False"
| "startswith (c # cs) (p # ps) = (c = p \<and> startswith cs ps)"

fun py_in :: "pystr \<Rightarrow> pystr \<Rightarrow> bool" where
  "py_in needle [] = (needle = [])"
| "py_in needle (c # cs) = (startswith (c # cs) needle \<or> py_in needle cs)"

section \<open>The retry wrapper around the LLM call\<close>

text \<open>
  The external service is an oracle: \<open>llm n\<close> is the outcome of the call number \<open>n\<close>
  (counting from 0) made on it, either \<open>Inl e\<close> for an exception whose \<open>str(e)\<close> is
  \<open>e\<close>, or \<open>Inr r\<close> for a response.  The effects the wrapper has on the world are the
  calls it makes and the sleeps it takes, in seconds and in order.
\<close>

record io =
  calls :: nat
  sleeps :: "nat list"

definition io0 :: io where
  "io0 = \<lparr>calls = 0, sleeps = []\<rparr>"

definition ainvoke :: "(nat \<Rightarrow> pystr + 'r) \<Rightarrow> io \<Rightarrow> (pystr + 'r) \<times> io" where
  "ainvoke llm w = (llm (calls w), w\<lparr>calls := Suc (calls w)\<rparr>)"

definition sleep :: "nat \<Rightarrow> io \<Rightarrow> io" where
  "sleep secs w = w\<lparr>sleeps := sleeps w @ [secs]\<rparr>"

definition is_rate_limit :: "pystr \<Rightarrow> bool" where
  "is_rate_limit e =
     (let err_str = lower e
      in py_in (ustr ''429'') err_str \<or> py_in (ustr ''resource exhausted'') err_str
         \<or> py_in (ustr ''rate'') err_str)"

text \<open>
  The \<open>for attempt in range(retries)\<close> loop, over the attempts still to make; once the
  range is used up, the call after the loop is made outside any \<open>try\<close>.
\<close>

fun retry_loop :: "(nat \<Rightarrow> pystr + 'r) \<Rightarrow> nat list \<Rightarrow> io \<Rightarrow> (pystr + 'r) \<times> io" where
  "retry_loop llm [] w = ainvoke llm w"
| "retry_loop llm (attempt # rest) w =
     (case ainvoke llm w of
        (Inr r, w') \<Rightarrow> (Inr r, w')
      | (Inl e, w') \<Rightarrow>
          if is_rate_limit e then retry_loop llm rest (sleep (2 ^ attempt) w')
          else (Inl e, w'))"

definition invoke_with_retry :: "(nat \<Rightarrow> pystr + 'r) \<Rightarrow> nat \<Rightarrow> io \<Rightarrow> (pystr + 'r) \<times> io" where
  "invoke_with_retry llm retries w = retry_loop llm [0..<retries] w"


definition invalid_argument :: "nat \<Rightarrow> pystr + unit" where
  "invalid_argument n = Inl (ustr ''400 Invalid Argument'')"

section \<open>The interview session over the websocket\<close>

text \<open>
  \<open>interview_websocket\<close>, from the point where the system instruction has been built.
  The session keeps the conversation history and the question counter; the model adds
  what the session does to the outside: the events sent to the browser, in order, and
  the number of calls made on the LLM.  The browser is taken to stay connected while its
  messages are handled, so every send succeeds; when the inbound messages are used up,
  \<open>receive_json\<close> raises the disconnect that ends the loop.
\<close>

datatype role = SystemMessage | HumanMessage | AIMessage

type_synonym message = "role \<times> pystr"

datatype event = Connected | Ai_response pystr | Interview_end | Error_event

text \<open>
  An inbound message is a JSON object; of a value only whether it is a string matters
  (any other value has no \<open>strip\<close> method).
\<close>

datatype json = JString pystr | JNonString

type_synonym jobject = "string \<rightharpoonup> json"

record session =
  conversation_history :: "message list"
  question_count :: nat
  sent :: "event list"
  llm_calls :: nat

text \<open>
  The LLM of the session: \<open>llm n h\<close> is the outcome of the call number \<open>n\<close>, made with
  the history \<open>h\<close>: an exception, or the content of the response.
\<close>

type_synonym chat_llm = "nat \<Rightarrow> message list \<Rightarrow> pystr + pystr"

definition llm_ainvoke :: "chat_llm \<Rightarrow> session \<Rightarrow> (pystr + pystr) \<times> session" where
  "llm_ainvoke llm s =
     (llm (llm_calls s) (conversation_history s), s\<lparr>llm_calls := Suc (llm_calls s)\<rparr>)"

definition send_json :: "event \<Rightarrow> session \<Rightarrow> session" where
  "send_json ev s = s\<lparr>sent := sent s @ [ev]\<rparr>"

definition append_history :: "message \<Rightarrow> session \<Rightarrow> session" where
  "append_history m s = s\<lparr>conversation_history := conversation_history s @ [m]\<rparr>"

definition greeting_prompt :: pystr where
  "greeting_prompt = ustr ''Start the interview with a warm greeting. Do not introduce yourself with a name, just say hello and welcome the candidate, then ask the first interview question.''"

definition closing_prompt :: pystr where
  "closing_prompt = ustr ''The interview is now complete. Please thank the candidate, give brief overall feedback on their performance, and say goodbye.''"

text \<open>The \<open>try\<close> block that answers a non-empty transcript, with its \<open>except\<close>.\<close>

definition answer :: "chat_llm \<Rightarrow> pystr \<Rightarrow> session \<Rightarrow> session" where
  "answer llm user_text s0 =
     (let s1 = append_history (HumanMessage, user_text) s0
      in case llm_ainvoke llm s1 of
           (Inl e, s2) \<Rightarrow> send_json Error_event s2
         | (Inr content, s2) \<Rightarrow>
             (let ai_response = strip content;
                  s3 = s2\<lparr>question_count := question_count s2 + 1\<rparr>;
                  s4 = append_history (AIMessage, ai_response) s3;
                  s5 = send_json (Ai_response ai_response) s4
              in if question_count s5 \<ge> 5
                 then (let s6 = append_history (HumanMessage, closing_prompt) s5
                       in case llm_ainvoke llm s6 of
                            (Inl e, s7) \<Rightarrow> send_json Error_event s7
                          | (Inr closing, s7) \<Rightarrow>
                              send_json Interview_end
                                (send_json (Ai_response (strip closing)) s7))
                 else s5))"

text \<open>
  One turn of the \<open>while True\<close> loop, after the message has been received.  The loop
  goes on (\<open>Continue\<close>) or is left by an exception that the outer handler logs
  (\<open>Stop\<close>).
\<close>

datatype flow = Continue session | Stop session

definition on_message :: "chat_llm \<Rightarrow> jobject \<Rightarrow> session \<Rightarrow> flow" where
  "on_message llm msg s =
     (if msg ''type'' = Some (JString (ustr ''user_transcript''))
      then (case (case msg ''transcript'' of None \<Rightarrow> JString [] | Some v \<Rightarrow> v) of
              JNonString \<Rightarrow> Stop s
            | JString t \<Rightarrow>
                (let user_text = strip t
                 in if user_text = [] then Continue s
                    else Continue (answer llm user_text s)))
      else Continue s)"

fun handle_user_message :: "chat_llm \<Rightarrow> jobject list \<Rightarrow> session \<Rightarrow> session" where
  "handle_user_message llm [] s = s"
| "handle_user_message llm (msg # inbound) s =
     (case on_message llm msg s of
        Continue s' \<Rightarrow> handle_user_message llm inbound s'
      | Stop s' \<Rightarrow> s')"

definition send_initial_greeting :: "chat_llm \<Rightarrow> session \<Rightarrow> session" where
  "send_initial_greeting llm s0 =
     (let s1 = append_history (HumanMessage, greeting_prompt) s0
      in case llm_ainvoke llm s1 of
           (Inl e, s2) \<Rightarrow> s2
         | (Inr content, s2) \<Rightarrow>
             (let greeting_text = strip content;
                  s3 = append_history (AIMessage, greeting_text) s2;
                  s4 = s3\<lparr>question_count := question_count s3 + 1\<rparr>
              in send_json (Ai_response greeting_text) s4))"

definition new_session :: "pystr \<Rightarrow> session" where
  "new_session sys_instr =
     \<lparr>conversation_history = [(SystemMessage, sys_instr)], question_count = 0,
      sent = [], llm_calls = 0\<rparr>"

definition interview_websocket :: "chat_llm \<Rightarrow> pystr \<Rightarrow> jobject list \<Rightarrow> session" where
  "interview_websocket llm sys_instr inbound =
     handle_user_message llm inbound
       (send_initial_greeting llm (send_json Connected (new_session sys_instr)))"

text \<open>Concrete sessions: an LLM that always answers, and a user message with a transcript.\<close>

definition llm_ok :: chat_llm where
  "llm_ok n h = Inr (ustr ''Tell me more.'')"

definition user_transcript :: "pystr \<Rightarrow> jobject" where
  "user_transcript t =
     [''type'' \<mapsto> JString (ustr ''user_transcript''), ''transcript'' \<mapsto> JString t]"

fun is_ai_response :: "event \<Rightarrow> bool" where
  "is_ai_response (Ai_response t) = True"
| "is_ai_response ev = False"

fun is_interview_end :: "event \<Rightarrow> bool" where
  "is_interview_end Interview_end = True"
| "is_interview_end ev = False"

definition is_user_transcript :: "jobject \<Rightarrow> bool" where
  "is_user_transcript msg \<longleftrightarrow>
     msg ''type'' = Some (JString (ustr ''user_transcript'')) \<and>
     (case msg ''transcript'' of Some (JString t) \<Rightarrow> strip t \<noteq> [] | _ \<Rightarrow> False)"

definition five_answers :: "jobject list" where
  "five_answers =
     [user_transcript (ustr ''I led the migration.''), user_transcript (ustr ''We used Python.''),
      user_transcript (ustr ''Three engineers.''), user_transcript (ustr ''It took a year.''),
      user_transcript (ustr ''I would test more.'')]"

definition blank_transcript :: jobject where
  "blank_transcript = user_transcript (ustr ''   '')"

definition four_answers :: "jobject list" where
  "four_answers = take 4 five_answers"

section \<open>The resume text segmenter\<close>

subsection \<open>String and regular expression operations it uses\<close>

text \<open>
  Splitting at every code point that satisfies \<open>p\<close>: \<open>n\<close> such code points give
  \<open>n + 1\<close> pieces, some of them empty.  \<open>s.split(sep)\<close> for a separator of one code
  point is the case where \<open>p\<close> tests for that code point.  \<open>sep.join(xs)\<close> is its
  inverse.
\<close>

fun split_where :: "(nat \<Rightarrow> bool) \<Rightarrow> pystr \<Rightarrow> pystr list" where
  "split_where p [] = [[]]"
| "split_where p (c # cs) =
     (if p c then [] # split_where p cs
      else (case split_where p cs of [] \<Rightarrow> [[c]] | w # ws \<Rightarrow> (c # w) # ws))"

definition split_on :: "nat \<Rightarrow> pystr \<Rightarrow> pystr list" where
  "split_on d s = split_where (\<lambda>c. c = d) s"

fun join :: "pystr \<Rightarrow> pystr list \<Rightarrow> pystr" where
  "join sep [] = []"
| "join sep [x] = x"
| "join sep (x # y # ys) = x @ sep @ join sep (y # ys)"

definition newline :: nat where
  "newline = 10"

text \<open>
  The regular expressions of the segmenter are built from words, \<open>\s*\<close>, an optional
  part, sequence and alternatives, and are compiled with \<open>(?i)\<close>.  A pattern code point
  \<open>p\<close> (a lower-case letter in every pattern) matches itself, its upper-case letter
  and the code points whose lower case it is: U+0130 and U+0131 for \<open>i\<close>, U+017F for
  \<open>s\<close>, U+212A for \<open>k\<close>.
\<close>

definition ci_match :: "nat \<Rightarrow> nat \<Rightarrow> bool" where
  "ci_match p c \<longleftrightarrow>
     c = p \<or> (97 \<le> p \<and> p \<le> 122 \<and> c + 32 = p) \<or>
     (p = 105 \<and> (c = 304 \<or> c = 305)) \<or> (p = 115 \<and> c = 383) \<or> (p = 107 \<and> c = 8490)"

datatype rx = Lit string | Spaces | Opt rx | Seq rx rx | Alt "rx list"

text \<open>
  Matching at the start of the subject.  The backtracking matcher is modelled by the
  list of the remainders it can leave, in the order in which it tries them; \<open>re.match\<close>
  returns a match when there is one.
\<close>

fun match_word :: "pystr \<Rightarrow> pystr \<Rightarrow> pystr option" where
  "match_word [] s = Some s"
| "match_word (p # ps) [] = None"
| "match_word (p # ps) (c # cs) = (if ci_match p c then match_word ps cs else None)"

fun match_spaces :: "pystr \<Rightarrow> pystr list" where
  "match_spaces [] = [[]]"
| "match_spaces (c # cs) = (if is_space c then match_spaces cs @ [c # cs] else [c # cs])"

fun rx_match :: "rx \<Rightarrow> pystr \<Rightarrow> pystr list" where
  "rx_match (Lit w) s = (case match_word (ustr w) s of None \<Rightarrow> [] | Some r \<Rightarrow> [r])"
| "rx_match Spaces s = match_spaces s"
| "rx_match (Opt r) s = rx_match r s @ [s]"
| "rx_match (Seq a b) s = concat (map (rx_match b) (rx_match a s))"
| "rx_match (Alt rs) s = concat (map (\<lambda>r. rx_match r s) rs)"

definition re_match :: "rx \<Rightarrow> pystr \<Rightarrow> bool" where
  "re_match pat s \<longleftrightarrow> rx_match pat s \<noteq> []"

text \<open>
  \<open>re.split\<close> for a pattern \<open>[...]+\<close>, where \<open>p\<close> tells the code points of the class:
  the text up to the first code point of the class is a piece, the longest run of the
  class after it is skipped, and the split goes on behind the run.
\<close>

lemma re_split_shorter:
  assumes "dropWhile (\<lambda>c. \<not> p c) s \<noteq> []"
  shows "length (dropWhile p (dropWhile (\<lambda>c. \<not> p c) s)) < length s"
proof -
  obtain x xs where r: "dropWhile (\<lambda>c. \<not> p c) s = x # xs"
    using assms by (cases "dropWhile (\<lambda>c. \<not> p c) s") simp_all
  have "p x"
    using hd_dropWhile [of "\<lambda>c. \<not> p c" s] assms r by simp
  then have "length (dropWhile p (x # xs)) \<le> length xs"
    by (simp add: length_dropWhile_le)
  moreover have "length (x # xs) \<le> length s"
    using length_dropWhile_le [of "\<lambda>c. \<not> p c" s] r by simp
  ultimately show ?thesis
    unfolding r by simp
qed

function re_split :: "(nat \<Rightarrow> bool) \<Rightarrow> pystr \<Rightarrow> pystr list" where
  "re_split p s =
     (if dropWhile (\<lambda>c. \<not> p c) s = [] then [takeWhile (\<lambda>c. \<not> p c) s]
      else takeWhile (\<lambda>c. \<not> p c) s # re_split p (dropWhile p (dropWhile (\<lambda>c. \<not> p c) s)))"
  by pat_completeness auto
termination
  by (relation "measure (\<lambda>(p, s). length s)") (simp_all add: re_split_shorter)

declare re_split.simps [simp del]

subsection \<open>The segmenter\<close>

datatype py_error = IndexError

definition py_index :: "'a list \<Rightarrow> nat \<Rightarrow> py_error + 'a" where
  "py_index xs i = (if i < length xs then Inr (xs ! i) else Inl IndexError)"

text \<open>The values of the result dictionary: a string, or a list of strings.\<close>

datatype pyval = Str pystr | StrList "pystr list"

type_synonym resume = "string \<rightharpoonup> pyval"

definition section_patterns :: "(string \<times> rx) list" where
  "section_patterns =
     [(''summary'',
       Alt [Lit ''summary'', Lit ''about'', Lit ''profile'', Lit ''objective'',
            Seq (Lit ''professional'') (Seq Spaces (Lit ''summary''))]),
      (''experience'',
       Alt [Lit ''experience'', Seq (Lit ''work'') (Seq Spaces (Lit ''history'')),
            Lit ''employment'',
            Seq (Lit ''professional'') (Seq Spaces (Lit ''experience''))]),
      (''education'',
       Alt [Lit ''education'', Lit ''academic'', Lit ''degrees'',
            Seq (Lit ''certification'') (Opt (Lit ''s'')),
            Seq (Lit ''qualification'') (Opt (Lit ''s''))]),
      (''skills'',
       Alt [Lit ''skills'', Lit ''technologies'',
            Seq (Lit ''technical'') (Seq Spaces (Lit ''skills'')),
            Lit ''competencies'', Lit ''expertise'', Lit ''tools''])]"

text \<open>
  The inner loop over the patterns: the first section whose pattern matches the stripped
  line, provided the line is shorter than 60 code points.
\<close>

fun first_heading :: "(string \<times> rx) list \<Rightarrow> pystr \<Rightarrow> string option" where
  "first_heading [] s = None"
| "first_heading ((sec, pat) # rest) s =
     (if re_match pat s \<and> length s < 60 then Some sec else first_heading rest s)"

type_synonym sections = "string \<rightharpoonup> pystr list"

text \<open>\<open>sections.setdefault(key, [])\<close>: the dictionary afterwards, and the list it returns.\<close>

definition setdefault :: "sections \<Rightarrow> string \<Rightarrow> sections" where
  "setdefault m key = (case m key of None \<Rightarrow> m(key \<mapsto> []) | Some ls \<Rightarrow> m)"

definition lines_of :: "sections \<Rightarrow> string \<Rightarrow> pystr list" where
  "lines_of m key = (case m key of None \<Rightarrow> [] | Some ls \<Rightarrow> ls)"

text \<open>
  The body of the loop over the lines, on the cursor and the dictionary of sections.
  A section name is never the empty string, so \<open>if matched\<close> asks whether a pattern
  matched.
\<close>

definition segment_line :: "string \<times> sections \<Rightarrow> pystr \<Rightarrow> string \<times> sections" where
  "segment_line st line =
     (let current = fst st; sections = snd st; s = strip line
      in case first_heading section_patterns s of
           Some matched \<Rightarrow> (matched, setdefault sections matched)
         | None \<Rightarrow> (current, sections(current \<mapsto> lines_of sections current @ [s])))"

definition segment :: "pystr list \<Rightarrow> string \<times> sections" where
  "segment lines = foldl segment_line (''header'', [''header'' \<mapsto> []]) lines"

definition section_texts :: "sections \<Rightarrow> (string \<rightharpoonup> pystr)" where
  "section_texts m = (\<lambda>key. map_option (\<lambda>ls. strip (join [newline] ls)) (m key))"

text \<open>\<open>key in sections and sections[key]\<close>: the text of a section that is there and not empty.\<close>

definition filled :: "(string \<rightharpoonup> pystr) \<Rightarrow> string \<Rightarrow> pystr option" where
  "filled texts key = (case texts key of None \<Rightarrow> None | Some t \<Rightarrow> if t = [] then None else Some t)"

definition is_skill_delim :: "nat \<Rightarrow> bool" where
  "is_skill_delim c \<longleftrightarrow> c = 44 \<or> c = 8226 \<or> c = 183 \<or> c = 124 \<or> c = 59 \<or> c = 10"

definition extract_skills :: "pystr \<Rightarrow> pystr list" where
  "extract_skills text =
     (let raw_skills = re_split is_skill_delim text
      in map strip (filter (\<lambda>s. strip s \<noteq> [] \<and> length (strip s) < 50) raw_skills))"

definition copy_section :: "(string \<rightharpoonup> pystr) \<Rightarrow> string \<Rightarrow> string \<Rightarrow> resume \<Rightarrow> resume" where
  "copy_section texts key field result =
     (case filled texts key of None \<Rightarrow> result | Some t \<Rightarrow> result(field \<mapsto> Str t))"

definition set_headline :: "pystr list \<Rightarrow> resume \<Rightarrow> py_error + resume" where
  "set_headline non_empty result =
     (if length non_empty \<ge> 2
      then (case py_index non_empty 1 of
              Inl err \<Rightarrow> Inl err
            | Inr second \<Rightarrow> Inr (result(''headline'' \<mapsto> Str second)))
      else Inr result)"

definition parse_resume_text :: "pystr \<Rightarrow> py_error + resume" where
  "parse_resume_text raw =
     (let result = [''headline'' \<mapsto> Str [], ''bio'' \<mapsto> Str [], ''skills'' \<mapsto> StrList [],
                    ''experience'' \<mapsto> Str [], ''education'' \<mapsto> Str []];
          lines = split_on newline (strip raw);
          non_empty = map strip (filter (\<lambda>l. strip l \<noteq> []) lines)
      in case set_headline non_empty result of
           Inl err \<Rightarrow> Inl err
         | Inr result \<Rightarrow>
             (let texts = section_texts (snd (segment lines));
                  result = copy_section texts ''summary'' ''bio'' result;
                  result = copy_section texts ''experience'' ''experience'' result;
                  result = copy_section texts ''education'' ''education'' result
              in Inr (case filled texts ''skills'' of
                        None \<Rightarrow> result
                      | Some t \<Rightarrow> result(''skills'' \<mapsto> StrList (extract_skills t)))))"

text \<open>Field access on a result, for stating what a call returned.\<close>

definition field :: "py_error + resume \<Rightarrow> string \<Rightarrow> pyval option" where
  "field r key = (case r of Inl err \<Rightarrow> None | Inr result \<Rightarrow> result key)"

definition text_of :: "string list \<Rightarrow> pystr" where
  "text_of ls = join [newline] (map ustr ls)"

text \<open>
  The words of the specification, to compare the code with: the non-empty lines of the
  input as it is given, each stripped; and the fragments of a skills text, which are
  what lies between two delimiters, before the first one and after the last one.
\<close>

definition non_empty_lines :: "pystr \<Rightarrow> pystr list" where
  "non_empty_lines raw = map strip (filter (\<lambda>l. strip l \<noteq> []) (split_on newline raw))"

definition skill_fragments :: "pystr \<Rightarrow> pystr list" where
  "skill_fragments text = split_where is_skill_delim text"

definition skills_text :: "pystr \<Rightarrow> pystr option" where
  "skills_text raw =
     filled (section_texts (snd (segment (split_on newline (strip raw))))) ''skills''"

text \<open>Concrete inputs: a line that opens with a heading word but is a sentence, and a resume.\<close>

definition long_line :: pystr where
  "long_line = ustr ''Experience shows that careful design and thorough testing pay off later.''"

definition jane_doe :: pystr where
  "jane_doe = text_of [''Jane Doe'', ''Senior Engineer'', ''...'']"

definition skills_resume :: pystr where
  "skills_resume = text_of [''Jane Doe'', ''Senior Engineer'', ''Skills'', ''Python, Go; Rust|C++'']"

section \<open>The record store and the operations on it\<close>

text \<open>
  Of the tables, the rows and columns that the operations below read or write.  The
  applications are kept by primary key; the users are kept as the list of the rows, since
  they are also searched by email and by role.  The \<open>skills\<close> column holds the JSON text
  of a list of strings (the column default \<open>[]\<close>, or what \<open>update_profile\<close> dumps); the
  model keeps the list.  A nullable text column is an option, \<open>None\<close> for \<open>NULL\<close>.  New
  identifiers (\<open>uuid4\<close>) are arguments of the operations that draw them.
\<close>

record user =
  user_id :: pystr
  user_name :: pystr
  email :: pystr
  role :: pystr
  skills :: "pystr list"

record application =
  app_user_id :: pystr
  job_id :: pystr
  job_title :: pystr
  description :: pystr
  tailored_resume :: "pystr option"
  status :: pystr

record hr_job =
  hr_job_id :: pystr
  posted_by :: pystr
  company :: pystr
  title :: pystr
  tags :: "pystr list"

text \<open>
  A notification, without its body: the body lists the first three elements of a Python
  set, whose order the language leaves open.
\<close>

record notification =
  notif_user_id :: pystr
  notif_title :: pystr
  link_page :: pystr
  read :: pystr

record store =
  users :: "user list"
  applications :: "pystr \<rightharpoonup> application"
  hr_jobs :: "hr_job list"
  notifications :: "notification list"

datatype http_error = HTTPException nat

text \<open>Python truthiness of a nullable string.\<close>

fun truthy :: "pystr option \<Rightarrow> bool" where
  "truthy None = False"
| "truthy (Some s) = (s \<noteq> [])"

subsection \<open>Resume generation\<close>

text \<open>
  \<open>generate_resume\<close>, up to the point where it hands \<open>tailor_resume\<close> to the background
  tasks: the store it leaves, and whether the task was scheduled.  \<open>get_llm\<close> is \<open>None\<close>
  when no API key is configured.
\<close>

definition generate_resume ::
  "(nat \<Rightarrow> pystr + pystr) option \<Rightarrow> pystr \<Rightarrow> store \<Rightarrow> http_error + store \<times> bool" where
  "generate_resume get_llm app_id db =
     (case applications db app_id of
        None \<Rightarrow> Inl (HTTPException 404)
      | Some application \<Rightarrow>
          if status application = ustr ''processing'' \<and> truthy (tailored_resume application)
          then Inr (db, False)
          else (case get_llm of
                  None \<Rightarrow> Inl (HTTPException 503)
                | Some llm \<Rightarrow>
                    Inr (db\<lparr>applications :=
                           (applications db)(app_id \<mapsto>
                              application\<lparr>status := ustr ''processing''\<rparr>)\<rparr>, True)))"

text \<open>
  \<open>s.replace(old, new)\<close>: the occurrences of \<open>old\<close> are replaced from left to right,
  without overlap; an empty \<open>old\<close> stands before every code point and at the end.
\<close>

function replace :: "pystr \<Rightarrow> pystr \<Rightarrow> pystr \<Rightarrow> pystr" where
  "replace old new s =
     (if old = [] then new @ concat (map (\<lambda>c. c # new) s)
      else if s = [] then []
      else if startswith s old then new @ replace old new (drop (length old) s)
      else hd s # replace old new (tl s))"
  by pat_completeness auto
termination
  by (relation "measure (\<lambda>(old, new, s). length s)") auto

declare replace.simps [simp del]

definition endswith :: "pystr \<Rightarrow> pystr \<Rightarrow> bool" where
  "endswith s suffix \<longleftrightarrow> startswith (rev s) (rev suffix)"

definition fence :: pystr where
  "fence = [96, 96, 96]"

definition begin_document :: pystr where
  "begin_document = 92 # ustr ''begin{document}''"

definition end_document :: pystr where
  "end_document = 92 # ustr ''end{document}''"

definition CONTENT_PLACEHOLDER :: pystr where
  "CONTENT_PLACEHOLDER = ustr ''%% CONTENT_PLACEHOLDER''"

text \<open>\<open>content.split("\n", 1)[1]\<close>: what follows the first newline.\<close>

definition after_first_line :: "pystr \<Rightarrow> py_error + pystr" where
  "after_first_line content =
     (case dropWhile (\<lambda>c. c \<noteq> newline) content of
        [] \<Rightarrow> Inl IndexError
      | c # rest \<Rightarrow> Inr rest)"

text \<open>
  The body of the \<open>try\<close> in \<open>tailor_resume\<close> after the call: the content of the
  response, without the markdown fences and the document brackets.
\<close>

definition clean_content :: "pystr \<Rightarrow> py_error + pystr" where
  "clean_content response_content =
     (let content = strip response_content
      in case (if startswith content fence
               then (case (if newline \<in> set content then after_first_line content
                           else Inr (drop 3 content)) of
                       Inl err \<Rightarrow> Inl err
                     | Inr content \<Rightarrow>
                         Inr (strip (if endswith content fence
                                     then take (length content - 3) content
                                     else content)))
               else Inr content) of
           Inl err \<Rightarrow> Inl err
         | Inr content \<Rightarrow>
             Inr (strip (replace end_document [] (replace begin_document [] content))))"

text \<open>
  \<open>tailor_resume\<close>, the background task.  The prompt it builds only matters to the LLM,
  which is an oracle here; \<open>template\<close> is the module constant \<open>LATEX_TEMPLATE\<close>.  Any
  exception raised in the \<open>try\<close> is logged and leaves \<open>content\<close> empty.
\<close>

definition tailor_resume ::
  "(nat \<Rightarrow> pystr + pystr) option \<Rightarrow> pystr \<Rightarrow> pystr \<Rightarrow> store \<Rightarrow> store" where
  "tailor_resume get_llm template app_id db =
     (case get_llm of
        None \<Rightarrow> db
      | Some llm \<Rightarrow>
          (let content =
                 (case fst (invoke_with_retry llm 3 io0) of
                    Inl e \<Rightarrow> []
                  | Inr response_content \<Rightarrow>
                      (case clean_content response_content of
                         Inl err \<Rightarrow> []
                       | Inr content \<Rightarrow> content))
           in if content = [] then db
              else (let full_latex = replace CONTENT_PLACEHOLDER content template
                    in case applications db app_id of
                         None \<Rightarrow> db
                       | Some application \<Rightarrow>
                           db\<lparr>applications :=
                                (applications db)(app_id \<mapsto>
                                   application\<lparr>tailored_resume := Some full_latex,
                                               status := ustr ''ready''\<rparr>)\<rparr>)))"

text \<open>\<open>_reset_stuck_processing\<close>, run once when the module is loaded.\<close>

definition stuck :: "application \<Rightarrow> bool" where
  "stuck a \<longleftrightarrow>
     status a = ustr ''processing'' \<and> (tailored_resume a = Some [] \<or> tailored_resume a = None)"

definition reset_stuck_processing :: "store \<Rightarrow> store" where
  "reset_stuck_processing db =
     db\<lparr>applications :=
          (\<lambda>app_id. map_option (\<lambda>a. if stuck a then a\<lparr>status := ustr ''saved''\<rparr> else a)
                       (applications db app_id))\<rparr>"

definition update_application_status :: "pystr \<Rightarrow> pystr \<Rightarrow> store \<Rightarrow> http_error + store" where
  "update_application_status app_id new_status db =
     (case applications db app_id of
        None \<Rightarrow> Inl (HTTPException 404)
      | Some application \<Rightarrow>
          if new_status \<notin> set [ustr ''saved'', ustr ''processing'', ustr ''ready'', ustr ''applied'']
          then Inl (HTTPException 400)
          else Inr (db\<lparr>applications :=
                       (applications db)(app_id \<mapsto> application\<lparr>status := new_status\<rparr>)\<rparr>))"

text \<open>Reading a row back, and running an operation on the store that an endpoint left.\<close>

definition status_of :: "store \<Rightarrow> pystr \<Rightarrow> pystr option" where
  "status_of db app_id = map_option status (applications db app_id)"

definition resume_of :: "store \<Rightarrow> pystr \<Rightarrow> pystr option" where
  "resume_of db app_id = Option.bind (applications db app_id) tailored_resume"

definition store_of :: "http_error + store \<times> bool \<Rightarrow> store \<Rightarrow> store" where
  "store_of r db = (case r of Inl err \<Rightarrow> db | Inr (db', scheduled) \<Rightarrow> db')"

text \<open>Concrete stores and services for the scenarios.\<close>

definition llm_down :: "nat \<Rightarrow> pystr + pystr" where
  "llm_down n = Inl (ustr ''503 Service Unavailable'')"

definition an_application :: application where
  "an_application =
     \<lparr>app_user_id = ustr ''u1'', job_id = ustr ''j1'', job_title = ustr ''Engineer'',
      description = ustr ''Build things'', tailored_resume = Some [], status = ustr ''saved''\<rparr>"

definition fresh_store :: store where
  "fresh_store =
     \<lparr>users = [], applications = [ustr ''a1'' \<mapsto> an_application], hr_jobs = [],
      notifications = []\<rparr>"

definition ready_store :: store where
  "ready_store =
     \<lparr>users = [],
      applications = [ustr ''a1'' \<mapsto>
         an_application\<lparr>tailored_resume := Some (ustr ''old resume''), status := ustr ''ready''\<rparr>],
      hr_jobs = [], notifications = []\<rparr>"

definition status_after :: "http_error + store \<Rightarrow> pystr \<Rightarrow> pystr option" where
  "status_after r app_id = (case r of Inl err \<Rightarrow> None | Inr db \<Rightarrow> status_of db app_id)"

text \<open>
  Two runs in which the LLM is down: a first generation for a saved application, and a
  regeneration for an application that already has a resume.
\<close>

definition first_generation_failed :: store where
  "first_generation_failed =
     tailor_resume (Some llm_down) CONTENT_PLACEHOLDER (ustr ''a1'')
       (store_of (generate_resume (Some llm_down) (ustr ''a1'') fresh_store) fresh_store)"

definition regeneration_failed :: store where
  "regeneration_failed =
     tailor_resume (Some llm_down) CONTENT_PLACEHOLDER (ustr ''a1'')
       (store_of (generate_resume (Some llm_down) (ustr ''a1'') ready_store) ready_store)"

subsection \<open>Registration, profiles and job posting\<close>

record register_request =
  req_name :: pystr
  req_email :: pystr
  req_role :: pystr

text \<open>
  \<open>RegisterRequest\<close> gives \<open>role\<close> the type \<open>str\<close> and the default \<open>user\<close>; a
  request that leaves the role out is the record with that default.
\<close>

text \<open>
  \<open>register\<close>: the user returned, and the store.  \<open>new_id\<close> is the identifier that
  \<open>uuid4\<close> draws.
\<close>

definition register :: "register_request \<Rightarrow> pystr \<Rightarrow> store \<Rightarrow> user \<times> store" where
  "register req new_id db =
     (case find (\<lambda>u. email u = req_email req) (users db) of
        Some existing \<Rightarrow> (existing, db)
      | None \<Rightarrow>
          (let user = \<lparr>user_id = new_id, user_name = req_name req, email = req_email req,
                       role = req_role req, skills = []\<rparr>
           in (user, db\<lparr>users := users db @ [user]\<rparr>)))"

text \<open>The row that \<open>query(...).filter(...).first()\<close> returns is the one that is updated.\<close>

fun update_first :: "('a \<Rightarrow> bool) \<Rightarrow> ('a \<Rightarrow> 'a) \<Rightarrow> 'a list \<Rightarrow> 'a list" where
  "update_first p f [] = []"
| "update_first p f (x # xs) = (if p x then f x # xs else x # update_first p f xs)"

text \<open>\<open>update_profile\<close>, of which only the skills matter here; the role is not among the
  columns it writes.\<close>

definition update_profile :: "pystr \<Rightarrow> pystr list \<Rightarrow> store \<Rightarrow> http_error + store" where
  "update_profile uid new_skills db =
     (case find (\<lambda>u. user_id u = uid) (users db) of
        None \<Rightarrow> Inl (HTTPException 404)
      | Some user \<Rightarrow>
          Inr (db\<lparr>users := update_first (\<lambda>u. user_id u = uid)
                               (\<lambda>u. u\<lparr>skills := new_skills\<rparr>) (users db)\<rparr>))"

record post_job_request =
  pj_user_id :: pystr
  pj_company :: pystr
  pj_title :: pystr
  pj_tags :: "pystr list option"

text \<open>
  The notification of one seeker, if the tags of the job and the skills overlap.
  \<open>lc\<close> is \<open>str.lower\<close>, on tags and skills that may hold any Unicode text.
\<close>

definition notify_seeker ::
  "(pystr \<Rightarrow> pystr) \<Rightarrow> post_job_request \<Rightarrow> pystr set \<Rightarrow> user \<Rightarrow> notification list" where
  "notify_seeker lc req job_tags seeker =
     (let user_skills = set (map lc (skills seeker));
          overlap = job_tags \<inter> user_skills
      in if overlap \<noteq> {}
         then [\<lparr>notif_user_id = user_id seeker,
                notif_title = ustr ''New job match: '' @ pj_title req,
                link_page = ustr ''feed'', read = ustr ''false''\<rparr>]
         else [])"

text \<open>\<open>hr_post_job\<close>; \<open>new_job_id\<close> is the identifier drawn for the job.\<close>

definition hr_post_job ::
  "(pystr \<Rightarrow> pystr) \<Rightarrow> post_job_request \<Rightarrow> pystr \<Rightarrow> store \<Rightarrow> http_error + store" where
  "hr_post_job lc req new_job_id db =
     (case find (\<lambda>u. user_id u = pj_user_id req) (users db) of
        None \<Rightarrow> Inl (HTTPException 403)
      | Some user \<Rightarrow>
          if role user \<noteq> ustr ''hr'' then Inl (HTTPException 403)
          else
            (let job = \<lparr>hr_job_id = new_job_id, posted_by = pj_user_id req,
                        company = pj_company req, title = pj_title req,
                        tags = (case pj_tags req of None \<Rightarrow> [] | Some ts \<Rightarrow> ts)\<rparr>;
                 db = db\<lparr>hr_jobs := hr_jobs db @ [job]\<rparr>;
                 job_tags = set (map lc (case pj_tags req of None \<Rightarrow> [] | Some ts \<Rightarrow> ts))
             in if job_tags \<noteq> {}
                then (let seekers = filter (\<lambda>u. role u = ustr ''seeker'') (users db)
                      in Inr (db\<lparr>notifications :=
                                  notifications db @
                                  concat (map (notify_seeker lc req job_tags) seekers)\<rparr>))
                else Inr db))"

text \<open>The notifications of a user in the store that an endpoint returned.\<close>

definition notifications_for :: "pystr \<Rightarrow> store \<Rightarrow> notification list" where
  "notifications_for uid db = filter (\<lambda>n. notif_user_id n = uid) (notifications db)"

definition then_do :: "store \<Rightarrow> (store \<Rightarrow> http_error + store) \<Rightarrow> store" where
  "then_do db endpoint = (case endpoint db of Inl err \<Rightarrow> db | Inr db' \<Rightarrow> db')"

text \<open>
  A scenario: a recruiter and a candidate register, the candidate lists Python among the
  skills, the recruiter posts a Python job.  Tags and skills are ASCII, on which \<open>lower\<close>
  is \<open>str.lower\<close>.
\<close>

definition empty_store :: store where
  "empty_store = \<lparr>users = [], applications = Map.empty, hr_jobs = [], notifications = []\<rparr>"

definition recruiter :: register_request where
  "recruiter = \<lparr>req_name = ustr ''Rita'', req_email = ustr ''rita@acme.example'',
                req_role = ustr ''hr''\<rparr>"

definition candidate :: "pystr \<Rightarrow> register_request" where
  "candidate r = \<lparr>req_name = ustr ''Sam'', req_email = ustr ''sam@mail.example'', req_role = r\<rparr>"

definition python_job :: post_job_request where
  "python_job = \<lparr>pj_user_id = ustr ''id-rita'', pj_company = ustr ''Acme'',
                 pj_title = ustr ''Backend Engineer'', pj_tags = Some [ustr ''Python'']\<rparr>"

definition with_recruiter :: store where
  "with_recruiter = snd (register recruiter (ustr ''id-rita'') empty_store)"

definition registered :: "pystr \<Rightarrow> store" where
  "registered r = snd (register (candidate r) (ustr ''id-sam'') with_recruiter)"

definition profiled :: "pystr \<Rightarrow> store" where
  "profiled r =
     then_do (registered r) (update_profile (ustr ''id-sam'') [ustr ''python'', ustr ''sql''])"

definition job_posted :: "pystr \<Rightarrow> store" where
  "job_posted r = then_do (profiled r) (hr_post_job lower python_job (ustr ''kanso-1''))"

section \<open>Properties of the retry wrapper\<close>



lemma not_rate_limit_invalid_argument: "\<not> is_rate_limit (ustr ''400 Invalid Argument'')"
  by (simp add: is_rate_limit_def ustr_def lower_def lower_cp_def)

lemma retry_loop_other_failure:
  assumes "k \<le> length as"
    and "\<And>i. i < k \<Longrightarrow> \<exists>m. llm (calls w + i) = Inl m \<and> is_rate_limit m"
    and "llm (calls w + k) = Inl e" and "\<not> is_rate_limit e"
  shows "retry_loop llm as w =
           (Inl e, \<lparr>calls = calls w + k + 1, sleeps = sleeps w @ map (\<lambda>a. 2 ^ a) (take k as)\<rparr>)"
  using assms
proof (induction as arbitrary: w k)
  case Nil
  then show ?case by (simp add: ainvoke_def)
next
  case (Cons a as)
  show ?case
  proof (cases k)
    case 0
    with Cons.prems show ?thesis by (simp add: ainvoke_def)
  next
    case (Suc j)
    obtain m where m: "llm (calls w) = Inl m" "is_rate_limit m"
      using Cons.prems(2) [of 0] Suc by auto
    let ?w = "sleep (2 ^ a) (w\<lparr>calls := Suc (calls w)\<rparr>)"
    have "retry_loop llm as ?w =
            (Inl e, \<lparr>calls = calls ?w + j + 1, sleeps = sleeps ?w @ map (\<lambda>a. 2 ^ a) (take j as)\<rparr>)"
    proof (rule Cons.IH)
      show "j \<le> length as" using Cons.prems(1) Suc by simp
      show "\<exists>m. llm (calls ?w + i) = Inl m \<and> is_rate_limit m" if "i < j" for i
        using Cons.prems(2) [of "Suc i"] that Suc by (simp add: sleep_def)
      show "llm (calls ?w + j) = Inl e" using Cons.prems(3) Suc by (simp add: sleep_def)
      show "\<not> is_rate_limit e" by (rule Cons.prems(4))
    qed
    then show ?thesis
      by (simp add: ainvoke_def m Suc sleep_def)
  qed
qed





text \<open>
  C6.  A failure that is not a rate-limit signal is propagated by the call that raised
  it: whether it comes at the first call (\<open>k = 0\<close>, one call and no sleep) or after \<open>k\<close>
  rate-limited calls, no call and no sleep follows it.
\<close>

theorem invoke_with_retry_other_failure:
  assumes "k \<le> retries"
    and "\<And>i. i < k \<Longrightarrow> \<exists>m. llm i = Inl m \<and> is_rate_limit m"
    and "llm k = Inl e" and "\<not> is_rate_limit e"
  shows "invoke_with_retry llm retries io0 =
           (Inl e, \<lparr>calls = Suc k, sleeps = map (\<lambda>a. 2 ^ a) [0..<k]\<rparr>)"
proof -
  have "take k [0..<retries] = [0..<k]"
    using assms(1) by (simp add: take_upt)
  then show ?thesis
    using retry_loop_other_failure [of k "[0..<retries]" llm io0 e] assms
    by (simp add: invoke_with_retry_def io0_def)
qed

theorem invoke_with_retry_other_failure_witness:
  "(0::nat) \<le> 3 \<and> invalid_argument 0 = Inl (ustr ''400 Invalid Argument'') \<and>
   \<not> is_rate_limit (ustr ''400 Invalid Argument'') \<and>
   invoke_with_retry invalid_argument 3 io0 =
     (Inl (ustr ''400 Invalid Argument''), \<lparr>calls = 1, sleeps = []\<rparr>)"
  using invoke_with_retry_other_failure
          [of 0 3 invalid_argument "ustr ''400 Invalid Argument''"]
        not_rate_limit_invalid_argument
  by (simp add: invalid_argument_def)

section \<open>Properties of the interview session\<close>

lemma answer_below_five:
  assumes "llm (llm_calls s) (conversation_history s @ [(HumanMessage, t)]) = Inr r"
    and "question_count s + 1 < 5"
  shows "answer llm t s =
           \<lparr>conversation_history =
              conversation_history s @ [(HumanMessage, t), (AIMessage, strip r)],
            question_count = question_count s + 1,
            sent = sent s @ [Ai_response (strip r)],
            llm_calls = llm_calls s + 1\<rparr>"
  using assms
  by (simp add: answer_def llm_ainvoke_def append_history_def send_json_def Let_def)

lemma answer_from_five:
  assumes "llm (llm_calls s) (conversation_history s @ [(HumanMessage, t)]) = Inr r"
    and "llm (llm_calls s + 1)
           (conversation_history s @
              [(HumanMessage, t), (AIMessage, strip r), (HumanMessage, closing_prompt)]) = Inr c"
    and "5 \<le> question_count s + 1"
  shows "answer llm t s =
           \<lparr>conversation_history =
              conversation_history s @
                [(HumanMessage, t), (AIMessage, strip r), (HumanMessage, closing_prompt)],
            question_count = question_count s + 1,
            sent = sent s @ [Ai_response (strip r), Ai_response (strip c), Interview_end],
            llm_calls = llm_calls s + 2\<rparr>"
  using assms
  by (simp add: answer_def llm_ainvoke_def append_history_def send_json_def Let_def)

lemma on_message_user_transcript:
  assumes "is_user_transcript msg"
  shows "\<exists>t. t \<noteq> [] \<and> on_message llm msg s = Continue (answer llm t s)"
  using assms
  by (auto simp: is_user_transcript_def on_message_def Let_def split: option.splits json.splits)

lemma greeting_ok:
  assumes "llm 0 [(SystemMessage, sys), (HumanMessage, greeting_prompt)] = Inr g"
  shows "send_initial_greeting llm (send_json Connected (new_session sys)) =
           \<lparr>conversation_history =
              [(SystemMessage, sys), (HumanMessage, greeting_prompt), (AIMessage, strip g)],
            question_count = 1,
            sent = [Connected, Ai_response (strip g)],
            llm_calls = 1\<rparr>"
  using assms
  by (simp add: send_initial_greeting_def llm_ainvoke_def append_history_def send_json_def
      new_session_def Let_def)

lemma on_message_step:
  assumes ok: "\<And>n h. \<exists>r. llm n h = Inr r" and m: "is_user_transcript msg"
  shows "\<exists>s' r c. on_message llm msg s = Continue s' \<and>
           question_count s' = question_count s + 1 \<and>
           sent s' = sent s @ (if question_count s + 1 < 5 then [Ai_response r]
                               else [Ai_response r, Ai_response c, Interview_end])"
proof -
  obtain t where t: "on_message llm msg s = Continue (answer llm t s)"
    using on_message_user_transcript [OF m] by blast
  obtain r where r: "llm (llm_calls s) (conversation_history s @ [(HumanMessage, t)]) = Inr r"
    using ok by blast
  obtain c where c: "llm (llm_calls s + 1)
       (conversation_history s @
          [(HumanMessage, t), (AIMessage, strip r), (HumanMessage, closing_prompt)]) = Inr c"
    using ok by blast
  show ?thesis
  proof (cases "question_count s + 1 < 5")
    case True
    then show ?thesis
      using t answer_below_five [of llm s t r, OF r True] by simp
  next
    case False
    then have "5 \<le> question_count s + 1" by simp
    then show ?thesis
      using t answer_from_five [of llm s t r c, OF r c] False by simp
  qed
qed

text \<open>
  C1, as the code has it.  The greeting already sets the counter to 1, so the counter
  reaches 5 with the answer to the fourth message: on a session where every LLM call
  succeeds, after exactly four non-empty transcripts the browser has received the
  connection notice, six \<open>ai_response\<close> events (the greeting, four replies, the closing
  reply) and then one \<open>interview_end\<close>.
\<close>

theorem interview_ends_with_fourth_answer:
  assumes ok: "\<And>n h. \<exists>r. llm n h = Inr r"
    and msgs: "is_user_transcript m1" "is_user_transcript m2"
      "is_user_transcript m3" "is_user_transcript m4"
  shows "\<exists>g r1 r2 r3 r4 c.
           sent (interview_websocket llm sys_instr [m1, m2, m3, m4]) =
             [Connected, Ai_response g, Ai_response r1, Ai_response r2, Ai_response r3,
              Ai_response r4, Ai_response c, Interview_end]"
proof -
  obtain g0 where g0: "llm 0 [(SystemMessage, sys_instr), (HumanMessage, greeting_prompt)] = Inr g0"
    using ok by blast
  define s0 where "s0 = send_initial_greeting llm (send_json Connected (new_session sys_instr))"
  have q0: "question_count s0 = 1" and e0: "sent s0 = [Connected, Ai_response (strip g0)]"
    unfolding s0_def using greeting_ok [of llm sys_instr g0, OF g0] by simp_all
  obtain s1 r1 where s1: "on_message llm m1 s0 = Continue s1" "question_count s1 = 2"
      "sent s1 = sent s0 @ [Ai_response r1]"
    using on_message_step [where llm = llm and msg = m1 and s = s0, OF ok msgs(1)] q0 by auto
  obtain s2 r2 where s2: "on_message llm m2 s1 = Continue s2" "question_count s2 = 3"
      "sent s2 = sent s1 @ [Ai_response r2]"
    using on_message_step [where llm = llm and msg = m2 and s = s1, OF ok msgs(2)] s1(2) by auto
  obtain s3 r3 where s3: "on_message llm m3 s2 = Continue s3" "question_count s3 = 4"
      "sent s3 = sent s2 @ [Ai_response r3]"
    using on_message_step [where llm = llm and msg = m3 and s = s2, OF ok msgs(3)] s2(2) by auto
  obtain s4 r4 c where s4: "on_message llm m4 s3 = Continue s4"
      "sent s4 = sent s3 @ [Ai_response r4, Ai_response c, Interview_end]"
    using on_message_step [where llm = llm and msg = m4 and s = s3, OF ok msgs(4)] s3(2) by auto
  have "interview_websocket llm sys_instr [m1, m2, m3, m4] = s4"
    using s1(1) s2(1) s3(1) s4(1) by (simp add: interview_websocket_def s0_def)
  then show ?thesis
    using e0 s1(3) s2(3) s3(3) s4(2) by simp
qed

lemmas session_defs = interview_websocket_def send_initial_greeting_def on_message_def
  answer_def llm_ainvoke_def send_json_def append_history_def new_session_def Let_def

lemmas string_defs = ustr_def strip_def lstrip_def rstrip_def is_space_def

lemma llm_ok_answers: "\<exists>r. llm_ok n h = Inr r"
  by (simp add: llm_ok_def)

lemma is_user_transcript_examples:
  "is_user_transcript (user_transcript (ustr ''I led the migration.''))"
  "is_user_transcript (user_transcript (ustr ''We used Python.''))"
  "is_user_transcript (user_transcript (ustr ''Three engineers.''))"
  "is_user_transcript (user_transcript (ustr ''It took a year.''))"
  "is_user_transcript (user_transcript (ustr ''I would test more.''))"
  by (simp_all add: is_user_transcript_def user_transcript_def string_defs)

theorem interview_ends_with_fourth_answer_witness:
  "list_all is_user_transcript four_answers \<and>
   (\<exists>g r1 r2 r3 r4 c.
      sent (interview_websocket llm_ok [] four_answers) =
        [Connected, Ai_response g, Ai_response r1, Ai_response r2, Ai_response r3,
         Ai_response r4, Ai_response c, Interview_end])"
proof -
  have four: "four_answers =
      [user_transcript (ustr ''I led the migration.''), user_transcript (ustr ''We used Python.''),
       user_transcript (ustr ''Three engineers.''), user_transcript (ustr ''It took a year.'')]"
    by (simp add: four_answers_def five_answers_def)
  have "\<exists>g r1 r2 r3 r4 c.
      sent (interview_websocket llm_ok []
        [user_transcript (ustr ''I led the migration.''), user_transcript (ustr ''We used Python.''),
         user_transcript (ustr ''Three engineers.''), user_transcript (ustr ''It took a year.'')]) =
        [Connected, Ai_response g, Ai_response r1, Ai_response r2, Ai_response r3,
         Ai_response r4, Ai_response c, Interview_end]"
    by (rule interview_ends_with_fourth_answer)
       (rule llm_ok_answers is_user_transcript_examples)+
  then show ?thesis
    unfolding four using is_user_transcript_examples by simp
qed

text \<open>
  The claim C1 as written (the closing comes with the fifth message) fails on a session
  whose LLM always answers: after five non-empty transcripts the browser has received
  eight \<open>ai_response\<close> events and two \<open>interview_end\<close> events, because the fourth message
  already closed the interview and the loop went on answering.
\<close>

theorem interview_five_answers_counterexample:
  "list_all is_user_transcript five_answers \<and>
   length (filter is_ai_response (sent (interview_websocket llm_ok [] five_answers))) = 8 \<and>
   length (filter is_interview_end (sent (interview_websocket llm_ok [] five_answers))) = 2 \<and>
   \<not> (length (filter is_ai_response (sent (interview_websocket llm_ok [] five_answers))) = 6 \<and>
      length (filter is_interview_end (sent (interview_websocket llm_ok [] five_answers))) = 1)"
proof -
  have "sent (interview_websocket llm_ok [] five_answers) =
     [Connected, Ai_response (ustr ''Tell me more.''), Ai_response (ustr ''Tell me more.''),
      Ai_response (ustr ''Tell me more.''), Ai_response (ustr ''Tell me more.''),
      Ai_response (ustr ''Tell me more.''), Ai_response (ustr ''Tell me more.''), Interview_end,
      Ai_response (ustr ''Tell me more.''), Ai_response (ustr ''Tell me more.''), Interview_end]"
    by (simp add: session_defs llm_ok_def user_transcript_def five_answers_def string_defs)
  then show ?thesis
    using is_user_transcript_examples by (simp add: five_answers_def)
qed

lemma handle_user_message_skip:
  assumes "\<And>s. on_message llm msg s = Continue s"
  shows "handle_user_message llm (before @ msg # after) s =
         handle_user_message llm (before @ after) s"
proof (induction before arbitrary: s)
  case Nil
  show ?case by (simp add: assms)
next
  case (Cons m before)
  show ?case
    by (cases "on_message llm m s") (simp_all add: Cons.IH)
qed

lemma on_message_blank:
  assumes "msg ''type'' = Some (JString (ustr ''user_transcript''))"
    and "msg ''transcript'' = None \<or> (\<exists>t. msg ''transcript'' = Some (JString t) \<and> strip t = [])"
  shows "on_message llm msg s = Continue s"
  using assms by (auto simp: on_message_def strip_def lstrip_def rstrip_def)

text \<open>
  C7.  A \<open>user_transcript\<close> message whose transcript is missing, empty or made of
  whitespace only leaves the session as it was: no call on the LLM, no event sent, no
  turn appended, the counter unchanged.  The session as a whole ends in the same state
  as if the message had never been received.
\<close>

theorem blank_transcript_ignored:
  assumes "msg ''type'' = Some (JString (ustr ''user_transcript''))"
    and "msg ''transcript'' = None \<or> (\<exists>t. msg ''transcript'' = Some (JString t) \<and> strip t = [])"
  shows "on_message llm msg s = Continue s \<and>
         handle_user_message llm (before @ msg # after) s =
           handle_user_message llm (before @ after) s"
  using on_message_blank [of msg llm, OF assms]
    handle_user_message_skip [of llm msg before after s]
  by simp

theorem blank_transcript_ignored_witness:
  "blank_transcript ''type'' = Some (JString (ustr ''user_transcript'')) \<and>
   blank_transcript ''transcript'' = Some (JString (ustr ''   '')) \<and>
   strip (ustr ''   '') = [] \<and>
   on_message llm_ok blank_transcript (new_session []) = Continue (new_session []) \<and>
   handle_user_message llm_ok ([] @ blank_transcript # four_answers) (new_session []) =
     handle_user_message llm_ok ([] @ four_answers) (new_session [])"
proof -
  have a: "blank_transcript ''type'' = Some (JString (ustr ''user_transcript''))"
    by (simp add: blank_transcript_def user_transcript_def)
  have b: "blank_transcript ''transcript'' = Some (JString (ustr ''   ''))"
    by (simp add: blank_transcript_def user_transcript_def)
  have c: "strip (ustr ''   '') = []"
    by (simp add: string_defs)
  from b c have d: "blank_transcript ''transcript'' = None \<or>
      (\<exists>t. blank_transcript ''transcript'' = Some (JString t) \<and> strip t = [])"
    by blast
  show ?thesis
    using blank_transcript_ignored [of blank_transcript llm_ok "new_session []" "[]" four_answers,
        OF a d] a b c
    by blast
qed

section \<open>Properties of the resume text segmenter\<close>

subsection \<open>Stripping and splitting\<close>

lemma strip_Cons_space: "is_space c \<Longrightarrow> strip (c # w) = strip w"
  by (simp add: strip_def lstrip_def)

lemma rstrip_snoc_space: "is_space c \<Longrightarrow> rstrip (w @ [c]) = rstrip w"
  by (simp add: rstrip_def)

lemma strip_snoc_space: "is_space c \<Longrightarrow> strip (w @ [c]) = strip w"
proof (cases "\<forall>x\<in>set w. is_space x")
  case True
  assume "is_space c"
  have a: "lstrip (w @ [c]) = []"
    unfolding lstrip_def using True \<open>is_space c\<close> by simp
  have b: "lstrip w = []"
    unfolding lstrip_def using True by simp
  show ?thesis
    unfolding strip_def a b ..
next
  case False
  assume c: "is_space c"
  from False have "dropWhile is_space (w @ [c]) = dropWhile is_space w @ [c]"
    by (auto simp: dropWhile_append1)
  then show ?thesis using c by (simp add: strip_def lstrip_def rstrip_snoc_space)
qed

lemma split_where_not_Nil: "split_where p s \<noteq> []"
  by (induction s) (auto split: list.splits)

lemma split_where_snoc:
  "split_where p (s @ [c]) =
     (if p c then split_where p s @ [[]]
      else butlast (split_where p s) @ [last (split_where p s) @ [c]])"
proof (induction s)
  case Nil
  show ?case by simp
next
  case (Cons a s)
  obtain w ws where r: "split_where p s = w # ws"
    using split_where_not_Nil [of p s] by (cases "split_where p s") auto
  show ?case
    using Cons.IH r by (cases ws) (auto split: list.splits)
qed

lemma non_empty_lines_Cons_space: "is_space c \<Longrightarrow> non_empty_lines (c # s) = non_empty_lines s"
  using split_where_not_Nil [of "\<lambda>c. c = newline" s]
  by (auto simp: non_empty_lines_def split_on_def strip_Cons_space strip_def lstrip_def rstrip_def split: list.splits)

lemma non_empty_lines_snoc_space: "is_space c \<Longrightarrow> non_empty_lines (s @ [c]) = non_empty_lines s"
proof -
  assume c: "is_space c"
  let ?r = "split_where (\<lambda>c. c = newline) s"
  have r: "?r = butlast ?r @ [last ?r]"
    using split_where_not_Nil [of _ s] by simp
  show ?thesis
  proof (cases "c = newline")
    case True
    then show ?thesis
      by (simp add: non_empty_lines_def split_on_def split_where_snoc strip_def lstrip_def rstrip_def)
  next
    case False
    have "map strip (filter (\<lambda>l. strip l \<noteq> []) (butlast ?r @ [last ?r @ [c]])) =
          map strip (filter (\<lambda>l. strip l \<noteq> []) (butlast ?r @ [last ?r]))"
      using c by (simp add: strip_snoc_space)
    then show ?thesis
      using False r by (simp add: non_empty_lines_def split_on_def split_where_snoc)
  qed
qed

lemma non_empty_lines_lstrip: "non_empty_lines (lstrip s) = non_empty_lines s"
  by (induction s) (simp_all add: lstrip_def non_empty_lines_Cons_space)

lemma non_empty_lines_rstrip_aux: "non_empty_lines (rev (dropWhile is_space xs)) = non_empty_lines (rev xs)"
  by (induction xs) (simp_all add: non_empty_lines_snoc_space)

lemma non_empty_lines_strip: "non_empty_lines (strip s) = non_empty_lines s"
  using non_empty_lines_rstrip_aux [of "rev (lstrip s)"]
  by (simp add: strip_def rstrip_def non_empty_lines_lstrip)

lemma non_empty_lines_jane_doe:
  "non_empty_lines jane_doe = [ustr ''Jane Doe'', ustr ''Senior Engineer'', ustr ''...'']"
  by (simp add: jane_doe_def non_empty_lines_def text_of_def split_on_def newline_def ustr_def
      strip_def lstrip_def rstrip_def is_space_def)

subsection \<open>The result and its headline\<close>

lemma set_headline_ok:
  "set_headline non_empty result =
     Inr (if 2 \<le> length non_empty then result(''headline'' \<mapsto> Str (non_empty ! 1)) else result)"
  by (simp add: set_headline_def py_index_def)

lemma parse_resume_text_headline:
  "field (parse_resume_text raw) ''headline'' =
     Some (Str (if 2 \<le> length (non_empty_lines (strip raw))
                then non_empty_lines (strip raw) ! 1 else []))"
  by (simp add: parse_resume_text_def field_def set_headline_ok non_empty_lines_def
      copy_section_def Let_def split: option.splits)

text \<open>
  C8.  For every input the segmenter returns a result, not an exception (the one indexed
  read is guarded by the length test), and the result has exactly the five fields, four
  of them strings and \<open>skills\<close> a list of strings.  The segmenter is a function of its
  input alone, and its only loop that is not bounded by a list, the split at delimiter
  runs, terminates since every round shortens the text.
\<close>

theorem parse_resume_text_total:
  "\<exists>result. parse_resume_text raw = Inr result \<and>
      dom result = {''headline'', ''bio'', ''skills'', ''experience'', ''education''} \<and>
      (\<exists>headline bio skills experience education.
         result ''headline'' = Some (Str headline) \<and> result ''bio'' = Some (Str bio) \<and>
         result ''skills'' = Some (StrList skills) \<and>
         result ''experience'' = Some (Str experience) \<and>
         result ''education'' = Some (Str education))"
  by (auto simp add: parse_resume_text_def set_headline_ok copy_section_def Let_def
      split: option.splits)

text \<open>
  C5.  The headline is the second non-empty line of the input, stripped, when the input
  has two non-empty lines, and the empty string otherwise.  The lines are those of the
  input as given: that the code strips the input before it splits it changes nothing.
  On \<open>Jane Doe\<close>, \<open>Senior Engineer\<close>, \<open>...\<close> the headline is \<open>Senior Engineer\<close>.
\<close>

theorem headline_second_non_empty_line:
  "field (parse_resume_text raw) ''headline'' =
     Some (Str (if 2 \<le> length (non_empty_lines raw) then non_empty_lines raw ! 1 else [])) \<and>
   field (parse_resume_text jane_doe) ''headline'' = Some (Str (ustr ''Senior Engineer''))"
  by (simp add: parse_resume_text_headline non_empty_lines_strip non_empty_lines_jane_doe)

subsection \<open>Headings\<close>

lemma first_heading_Some:
  "first_heading pats s = Some sec \<Longrightarrow>
     length s < 60 \<and> (\<exists>pat. (sec, pat) \<in> set pats \<and> re_match pat s)"
  by (induction pats) (auto split: if_splits)

lemma first_heading_long: "60 \<le> length s \<Longrightarrow> first_heading pats s = None"
  by (induction pats s rule: first_heading.induct) simp_all

lemma segment_line_long:
  assumes "60 \<le> length (strip line)"
  shows "segment_line (current, sections) line =
           (current, sections(current \<mapsto> lines_of sections current @ [strip line]))"
  using assms by (simp add: segment_line_def first_heading_long Let_def)

lemma lines_of_setdefault: "lines_of (setdefault sections sec) key = lines_of sections key"
  by (simp add: lines_of_def setdefault_def split: option.splits)

lemma segment_line_heading:
  assumes "first_heading section_patterns (strip line) = Some sec"
  shows "segment_line (current, sections) line = (sec, setdefault sections sec)"
  using assms by (simp add: segment_line_def Let_def)

lemma foldl_segment_line_long:
  assumes "\<forall>l \<in> set lines. 60 \<le> length (strip l)"
  shows "fst (foldl segment_line st lines) = fst st"
  using assms
proof (induction lines arbitrary: st)
  case Nil
  show ?case by simp
next
  case (Cons l lines)
  then show ?case
    by (cases st) (simp add: segment_line_long)
qed

lemma ex_heading: "first_heading section_patterns (ustr ''EXPERIENCE'') = Some ''experience''"
  by (simp add: section_patterns_def re_match_def ustr_def ci_match_def)

lemma ex_long: "length (strip long_line) = 72"
  by (simp add: long_line_def ustr_def strip_def lstrip_def rstrip_def is_space_def)

lemma ex_long_match: "re_match (Lit ''experience'') (strip long_line)"
  by (simp add: re_match_def long_line_def ustr_def strip_def lstrip_def rstrip_def
      is_space_def ci_match_def)

lemma ex_skills_heading: "first_heading section_patterns (strip (ustr '' Skills:'')) = Some ''skills''"
  by (simp add: section_patterns_def re_match_def ustr_def ci_match_def strip_def lstrip_def
      rstrip_def is_space_def)

lemma first_heading_iff:
  "first_heading pats s \<noteq> None \<longleftrightarrow> length s < 60 \<and> list_ex (\<lambda>x. re_match (snd x) s) pats"
  by (induction pats s rule: first_heading.induct) auto

subsection \<open>Splitting the skills text\<close>

lemma split_where_dropWhile:
  "filter (\<lambda>f. f \<noteq> []) (split_where p (dropWhile p r)) = filter (\<lambda>f. f \<noteq> []) (split_where p r)"
  by (induction r) simp_all

lemma split_where_takeWhile:
  "split_where p s =
     (if dropWhile (\<lambda>c. \<not> p c) s = [] then [takeWhile (\<lambda>c. \<not> p c) s]
      else takeWhile (\<lambda>c. \<not> p c) s # split_where p (tl (dropWhile (\<lambda>c. \<not> p c) s)))"
  by (induction s) (auto split: list.splits)

lemma re_split_fragments:
  "filter (\<lambda>f. f \<noteq> []) (re_split p s) = filter (\<lambda>f. f \<noteq> []) (split_where p s)"
proof (induction p s rule: re_split.induct)
  case (1 p s)
  let ?rest = "dropWhile (\<lambda>c. \<not> p c) s"
  show ?case
  proof (cases "?rest = []")
    case True
    then show ?thesis
      by (subst re_split.simps, subst split_where_takeWhile) simp
  next
    case False
    then obtain x xs where r: "?rest = x # xs"
      by (cases ?rest) simp_all
    have "p x"
      using hd_dropWhile [of "\<lambda>c. \<not> p c" s] False r by simp
    then have "dropWhile p ?rest = dropWhile p (tl ?rest)"
      by (simp add: r)
    then have eq: "filter (\<lambda>f. f \<noteq> []) (re_split p (dropWhile p ?rest)) =
               filter (\<lambda>f. f \<noteq> []) (split_where p (tl ?rest))"
      using "1.IH" [OF False] by (simp add: split_where_dropWhile)
    have A: "re_split p s = takeWhile (\<lambda>c. \<not> p c) s # re_split p (dropWhile p ?rest)"
      by (subst re_split.simps) (simp only: False if_False)
    have B: "split_where p s = takeWhile (\<lambda>c. \<not> p c) s # split_where p (tl ?rest)"
      by (subst split_where_takeWhile) (simp only: False if_False)
    show ?thesis
      unfolding A B using eq by simp
  qed
qed

lemma strip_Nil: "strip [] = []"
  by (simp add: strip_def lstrip_def rstrip_def)

lemma extract_skills_fragments:
  "extract_skills text =
     map strip (filter (\<lambda>f. strip f \<noteq> [] \<and> length (strip f) < 50) (skill_fragments text))"
proof -
  have keep: "filter (\<lambda>f. strip f \<noteq> [] \<and> length (strip f) < 50) xs =
        filter (\<lambda>f. strip f \<noteq> [] \<and> length (strip f) < 50) (filter (\<lambda>f. f \<noteq> []) xs)" for xs
    by (induction xs) (auto simp: strip_Nil)
  show ?thesis
    unfolding extract_skills_def skill_fragments_def Let_def
    by (subst keep, subst re_split_fragments, subst keep [symmetric]) simp
qed

lemma ex_skills_text: "skills_text skills_resume = Some (ustr ''Python, Go; Rust|C++'')"
  by (simp add: skills_text_def skills_resume_def text_of_def filled_def section_texts_def segment_def
     segment_line_def split_on_def newline_def section_patterns_def re_match_def ci_match_def lines_of_def setdefault_def
     ustr_def strip_def lstrip_def rstrip_def is_space_def Let_def)

lemma ex_fragments: "skill_fragments (ustr ''Python, Go; Rust|C++'') = [ustr ''Python'', ustr '' Go'', ustr '' Rust'', ustr ''C++'']"
  by (simp add: skill_fragments_def is_skill_delim_def ustr_def)

lemma concat_split_where: "concat (split_where p s) = filter (\<lambda>c. \<not> p c) s"
  by (induction s) (auto split: list.splits)

lemma length_split_where: "length (split_where p s) = Suc (length (filter p s))"
  by (induction s) (auto split: list.splits)

lemma parse_resume_text_skills:
  "field (parse_resume_text raw) ''skills'' =
     Some (StrList (case skills_text raw of None \<Rightarrow> [] | Some text \<Rightarrow> extract_skills text))"
  by (simp add: parse_resume_text_def field_def set_headline_ok skills_text_def
      copy_section_def Let_def split: option.splits)

lemma ex_extract_skills:
  "extract_skills (ustr ''Python, Go; Rust|C++'') =
     [ustr ''Python'', ustr ''Go'', ustr ''Rust'', ustr ''C++'']"
  by (simp add: extract_skills_fragments ex_fragments)
     (simp add: ustr_def strip_def lstrip_def rstrip_def is_space_def)

lemma ex_extract_duplicates:
  "extract_skills (ustr ''Go,Rust,,Go'') = [ustr ''Go'', ustr ''Rust'', ustr ''Go'']"
  by (simp add: extract_skills_fragments skill_fragments_def is_skill_delim_def ustr_def
      strip_def lstrip_def rstrip_def is_space_def)

text \<open>
  C3.  A line is a heading only when a pattern matches at the start of the stripped line
  and the stripped line has fewer than 60 code points, and then the section is that of
  the first such pattern.  A line whose stripped form has 60 code points or more leaves
  the cursor where it is and is appended to the current section, whatever it starts
  with; a text made of such lines only ends with the cursor on \<open>header\<close>.  A heading
  line moves the cursor and is appended to no section: every section has the lines it
  had before.
\<close>

theorem heading_needs_short_line:
  "(first_heading section_patterns s = Some sec \<longrightarrow>
      length s < 60 \<and> (\<exists>pat. (sec, pat) \<in> set section_patterns \<and> re_match pat s)) \<and>
   (first_heading section_patterns s \<noteq> None \<longleftrightarrow>
      length s < 60 \<and> list_ex (\<lambda>x. re_match (snd x) s) section_patterns) \<and>
   (60 \<le> length (strip line) \<longrightarrow>
      segment_line (current, sections) line =
        (current, sections(current \<mapsto> lines_of sections current @ [strip line]))) \<and>
   ((\<forall>l \<in> set lines. 60 \<le> length (strip l)) \<longrightarrow> fst (segment lines) = ''header'') \<and>
   (first_heading section_patterns (strip heading) = Some matched \<longrightarrow>
      segment_line (current, sections) heading = (matched, setdefault sections matched) \<and>
      (\<forall>key. lines_of (setdefault sections matched) key = lines_of sections key))"
  using first_heading_Some [of section_patterns s sec]
    first_heading_iff [of section_patterns s]
    segment_line_long [of line current sections]
    foldl_segment_line_long [of lines "(''header'', [''header'' \<mapsto> []])"]
    segment_line_heading [of heading matched current sections]
    lines_of_setdefault [of sections matched]
  unfolding segment_def by simp

theorem heading_needs_short_line_witness:
  "first_heading section_patterns (ustr ''EXPERIENCE'') = Some ''experience'' \<and>
   length (ustr ''EXPERIENCE'') < 60 \<and>
   re_match (Lit ''experience'') (strip long_line) \<and> 60 \<le> length (strip long_line) \<and>
   segment_line (''header'', [''header'' \<mapsto> []]) long_line =
     (''header'', [''header'' \<mapsto> [strip long_line]]) \<and>
   fst (segment [long_line, long_line]) = ''header'' \<and>
   first_heading section_patterns (strip (ustr '' Skills:'')) = Some ''skills'' \<and>
   segment_line (''header'', [''header'' \<mapsto> []]) (ustr '' Skills:'') =
     (''skills'', [''header'' \<mapsto> [], ''skills'' \<mapsto> []])"
proof -
  have long: "60 \<le> length (strip long_line)"
    by (simp add: ex_long)
  have "length (ustr ''EXPERIENCE'') < 60"
    by (simp add: ustr_def)
  moreover have "[''header'' \<mapsto> [], ''skills'' \<mapsto> []] =
      setdefault [''header'' \<mapsto> []] ''skills''"
    by (simp add: setdefault_def)
  moreover have "lines_of [''header'' \<mapsto> []] ''header'' = ([] :: pystr list)"
    by (simp add: lines_of_def)
  ultimately show ?thesis
    using heading_needs_short_line [of "ustr ''EXPERIENCE''" "''experience''" long_line
        "''header''" "[''header'' \<mapsto> []]" "[long_line, long_line]" "ustr '' Skills:''"
        "''skills''"]
      ex_heading ex_long_match ex_skills_heading long
    by simp
qed

text \<open>
  C4.  The skills of the result are the fragments of the skills text, each stripped, in
  their order, those kept whose stripped form is not empty and has fewer than 50 code
  points; a section without text gives no skill.  The fragments are what the
  delimiters (comma, the two bullets, pipe, semicolon, newline) separate: put end to
  end they are the text without its delimiters, and a run of delimiters only adds empty
  fragments, which are dropped.  Nothing removes a duplicate.  The text
  \<open>Python, Go; Rust|C++\<close> gives \<open>Python\<close>, \<open>Go\<close>, \<open>Rust\<close>, \<open>C++\<close>.
\<close>

theorem skills_split_at_delimiters:
  "field (parse_resume_text raw) ''skills'' =
     Some (StrList (case skills_text raw of
                      None \<Rightarrow> []
                    | Some text \<Rightarrow>
                        map strip (filter (\<lambda>f. strip f \<noteq> [] \<and> length (strip f) < 50)
                                     (skill_fragments text)))) \<and>
   concat (skill_fragments text) = filter (\<lambda>c. \<not> is_skill_delim c) text \<and>
   length (skill_fragments text) = Suc (length (filter is_skill_delim text)) \<and>
   skills_text skills_resume = Some (ustr ''Python, Go; Rust|C++'') \<and>
   field (parse_resume_text skills_resume) ''skills'' =
     Some (StrList [ustr ''Python'', ustr ''Go'', ustr ''Rust'', ustr ''C++'']) \<and>
   extract_skills (ustr ''Go,Rust,,Go'') = [ustr ''Go'', ustr ''Rust'', ustr ''Go'']"
  by (simp add: parse_resume_text_skills ex_skills_text ex_extract_skills ex_extract_duplicates
      concat_split_where length_split_where skill_fragments_def)
     (simp add: extract_skills_fragments split: option.splits)

section \<open>Properties of resume generation\<close>

lemma clean_content_blank: "strip r = [] \<Longrightarrow> clean_content r = Inr []"
  by (simp add: clean_content_def fence_def replace.simps begin_document_def end_document_def strip_Nil)

lemma tailor_resume_failed:
  assumes "get_llm = None \<or>
     (\<exists>llm. get_llm = Some llm \<and>
        ((\<exists>e. fst (invoke_with_retry llm 3 io0) = Inl e) \<or>
         (\<exists>r. fst (invoke_with_retry llm 3 io0) = Inr r \<and>
              (strip r = [] \<or> clean_content r = Inr []))))"
  shows "tailor_resume get_llm template app_id db = db"
  using assms by (auto simp: tailor_resume_def clean_content_blank)

lemma tailor_resume_status:
  "status_of (tailor_resume get_llm template app_id db) key = status_of db key \<or>
   status_of (tailor_resume get_llm template app_id db) key = Some (ustr ''ready'')"
  by (auto simp: tailor_resume_def status_of_def Let_def split: option.splits sum.splits)

lemma reset_stuck_processing_rows:
  "applications (reset_stuck_processing db) key =
     map_option (\<lambda>a. if stuck a then a\<lparr>status := ustr ''saved''\<rparr> else a) (applications db key)"
  by (simp add: reset_stuck_processing_def)

lemma llm_down_fails: "fst (invoke_with_retry llm_down 3 io0) = Inl (ustr ''503 Service Unavailable'')"
proof -
  have "\<not> is_rate_limit (ustr ''503 Service Unavailable'')"
    by (simp add: is_rate_limit_def ustr_def lower_def lower_cp_def)
  then show ?thesis
    using retry_loop_other_failure [of 0 "[0..<3]" llm_down io0 "ustr ''503 Service Unavailable''"]
    by (simp add: invoke_with_retry_def llm_down_def io0_def)
qed

lemma first_generation_failed_eq:
  "first_generation_failed =
     fresh_store\<lparr>applications := [ustr ''a1'' \<mapsto> an_application\<lparr>status := ustr ''processing''\<rparr>]\<rparr>"
  using tailor_resume_failed [of "Some llm_down"] llm_down_fails
  by (simp add: first_generation_failed_def generate_resume_def store_of_def fresh_store_def
       an_application_def ustr_def)

lemma regeneration_failed_eq:
  "regeneration_failed =
     ready_store\<lparr>applications := [ustr ''a1'' \<mapsto>
        an_application\<lparr>tailored_resume := Some (ustr ''old resume''), status := ustr ''processing''\<rparr>]\<rparr>"
  using tailor_resume_failed [of "Some llm_down"] llm_down_fails
  by (simp add: regeneration_failed_def generate_resume_def store_of_def ready_store_def
       an_application_def ustr_def)

text \<open>
  C9, as the code has it.  When no LLM is configured, when the call fails after the
  retries, or when the content is empty once stripped or cleaned, \<open>tailor_resume\<close>
  returns the store it was given: status and \<open>tailored_resume\<close> stay as
  \<open>generate_resume\<close> left them, and nothing records the failure.  Whatever the outcome,
  the status it leaves is the one it found or \<open>ready\<close>, never a new \<open>saved\<close>.  The reset
  at startup sets to \<open>saved\<close> the rows that are \<open>processing\<close> with an empty or null
  \<open>tailored_resume\<close>, and leaves every other row as it is.
\<close>

theorem tailor_resume_failure_leaves_record:
  "((get_llm = None \<or>
     (\<exists>llm. get_llm = Some llm \<and>
        ((\<exists>e. fst (invoke_with_retry llm 3 io0) = Inl e) \<or>
         (\<exists>r. fst (invoke_with_retry llm 3 io0) = Inr r \<and>
              (strip r = [] \<or> clean_content r = Inr []))))) \<longrightarrow>
    tailor_resume get_llm template app_id db = db) \<and>
   (status_of (tailor_resume get_llm template app_id db) key = status_of db key \<or>
    status_of (tailor_resume get_llm template app_id db) key = Some (ustr ''ready'')) \<and>
   applications (reset_stuck_processing db) key =
     map_option (\<lambda>a. if stuck a then a\<lparr>status := ustr ''saved''\<rparr> else a) (applications db key)"
  using tailor_resume_failed [of get_llm template app_id db]
    tailor_resume_status [of get_llm template app_id db key]
    reset_stuck_processing_rows [of db key]
  by blast

theorem tailor_resume_failure_leaves_record_witness:
  "fst (invoke_with_retry llm_down 3 io0) = Inl (ustr ''503 Service Unavailable'') \<and>
   tailor_resume (Some llm_down) CONTENT_PLACEHOLDER (ustr ''a1'') fresh_store = fresh_store"
  using tailor_resume_failure_leaves_record
          [of "Some llm_down" CONTENT_PLACEHOLDER "ustr ''a1''" fresh_store "ustr ''a1''"]
        llm_down_fails
  by blast

text \<open>
  The claim C9 as written fails in two places.  After a failed regeneration the row is
  \<open>processing\<close> with the earlier resume still in \<open>tailored_resume\<close>, which is not empty,
  and the reset at startup leaves that row \<open>processing\<close>.  After a failed first
  generation the row is \<open>processing\<close> with an empty resume, and the status endpoint
  puts it back to \<open>saved\<close> with no restart.
\<close>

theorem tailor_resume_stuck_counterexample:
  "status_of regeneration_failed (ustr ''a1'') = Some (ustr ''processing'') \<and>
   resume_of regeneration_failed (ustr ''a1'') = Some (ustr ''old resume'') \<and>
   status_of (reset_stuck_processing regeneration_failed) (ustr ''a1'') =
     Some (ustr ''processing'') \<and>
   status_of first_generation_failed (ustr ''a1'') = Some (ustr ''processing'') \<and>
   resume_of first_generation_failed (ustr ''a1'') = Some [] \<and>
   status_after (update_application_status (ustr ''a1'') (ustr ''saved'') first_generation_failed)
     (ustr ''a1'') = Some (ustr ''saved'')"
  by (simp add: regeneration_failed_eq first_generation_failed_eq status_of_def resume_of_def
      reset_stuck_processing_def stuck_def status_after_def update_application_status_def
      fresh_store_def ready_store_def an_application_def)
     (simp add: ustr_def)

section \<open>Properties of the job-match notifications\<close>

lemma notify_seeker_user: "n \<in> set (notify_seeker lc req job_tags seeker) \<Longrightarrow> notif_user_id n = user_id seeker"
  by (auto simp: notify_seeker_def Let_def split: if_splits)

lemma hr_post_job_notifies_seekers:
  assumes "hr_post_job lc req new_job_id db = Inr db'"
    and "\<And>u. u \<in> set (users db) \<Longrightarrow> user_id u = uid \<Longrightarrow> role u \<noteq> ustr ''seeker''"
  shows "notifications_for uid db' = notifications_for uid db"
proof -
  have "filter (\<lambda>n. notif_user_id n = uid)
          (concat (map (notify_seeker lc req tgs) (filter (\<lambda>u. role u = ustr ''seeker'') us))) = []"
    if "set us \<subseteq> set (users db)" for tgs us
    using that
  proof (induction us)
    case Nil
    show ?case by simp
  next
    case (Cons u us)
    then show ?case
      using assms(2) [of u] by (auto simp: filter_empty_conv dest: notify_seeker_user)
  qed
  from this [of "users db"] show ?thesis
    using assms(1)
    by (auto simp: hr_post_job_def notifications_for_def Let_def split: option.splits if_splits)
qed

lemma update_first_set:
  "u \<in> set (update_first p f xs) \<Longrightarrow> u \<in> set xs \<or> (\<exists>x \<in> set xs. p x \<and> u = f x)"
  by (induction xs) (auto split: if_splits)

lemma update_profile_roles:
  assumes "update_profile uid' new_skills db = Inr db'" and "u \<in> set (users db')"
  shows "\<exists>v \<in> set (users db). user_id v = user_id u \<and> role v = role u"
proof -
  have "users db' = update_first (\<lambda>u. user_id u = uid') (\<lambda>u. u\<lparr>skills := new_skills\<rparr>) (users db)"
    using assms(1) by (auto simp: update_profile_def split: option.splits)
  then consider "u \<in> set (users db)"
    | x where "x \<in> set (users db)" "u = x\<lparr>skills := new_skills\<rparr>"
    using assms(2) update_first_set [of u "\<lambda>u. user_id u = uid'" "\<lambda>u. u\<lparr>skills := new_skills\<rparr>" "users db"]
    by auto
  then show ?thesis
  proof cases
    case 1
    then show ?thesis by blast
  next
    case 2
    then have "user_id x = user_id u \<and> role x = role u" by simp
    with 2(1) show ?thesis by blast
  qed
qed

lemma update_profile_notifications:
  "update_profile uid' new_skills db = Inr db' \<Longrightarrow> notifications db' = notifications db"
  by (auto simp: update_profile_def split: option.splits)

lemma register_creates:
  assumes "find (\<lambda>u. email u = req_email req) (users db) = None"
  shows "register req new_id db =
     (\<lparr>user_id = new_id, user_name = req_name req, email = req_email req,
       role = req_role req, skills = []\<rparr>,
      db\<lparr>users := users db @ [\<lparr>user_id = new_id, user_name = req_name req, email = req_email req,
       role = req_role req, skills = []\<rparr>]\<rparr>)"
  using assms by (simp add: register_def Let_def)

lemma register_new_users:
  assumes "find (\<lambda>u. email u = req_email req) (users db) = None"
    and "u \<in> set (users (snd (register req new_id db)))"
  shows "u \<in> set (users db) \<or> (user_id u = new_id \<and> role u = req_role req)"
proof -
  have "users (snd (register req new_id db)) =
      users db @ [\<lparr>user_id = new_id, user_name = req_name req, email = req_email req,
                    role = req_role req, skills = []\<rparr>]"
    by (simp add: register_creates [OF assms(1)])
  then have "u \<in> set (users db) \<or>
      u = \<lparr>user_id = new_id, user_name = req_name req, email = req_email req,
           role = req_role req, skills = []\<rparr>"
    using assms(2) by auto
  then show ?thesis
  proof
    assume "u \<in> set (users db)"
    then show ?thesis ..
  next
    assume u: "u = \<lparr>user_id = new_id, user_name = req_name req, email = req_email req,
           role = req_role req, skills = []\<rparr>"
    have "user_id u = new_id \<and> role u = req_role req"
      by (subst u, subst u) simp
    then show ?thesis ..
  qed
qed

lemma non_seeker_not_notified:
  assumes role: "req_role req \<noteq> ustr ''seeker''"
    and new: "find (\<lambda>u. email u = req_email req) (users db) = None"
    and fresh: "\<forall>u \<in> set (users db). user_id u \<noteq> new_id"
    and prof: "update_profile new_id new_skills (snd (register req new_id db)) = Inr db1"
    and post: "hr_post_job lc post new_job_id db1 = Inr db2"
  shows "notifications_for new_id db2 = notifications_for new_id db"
proof -
  let ?db0 = "snd (register req new_id db)"
  have r: "role u \<noteq> ustr ''seeker''" if "u \<in> set (users ?db0)" "user_id u = new_id" for u
    using register_new_users [OF new that(1)] that(2) role fresh by auto
  have "role u \<noteq> ustr ''seeker''" if mem: "u \<in> set (users db1)" and uid: "user_id u = new_id" for u
  proof -
    obtain v where "v \<in> set (users ?db0)" "user_id v = user_id u" "role v = role u"
      using update_profile_roles [OF prof mem] by blast
    then show ?thesis
      using r [of v] uid by simp
  qed
  then have "notifications_for new_id db2 = notifications_for new_id db1"
    using hr_post_job_notifies_seekers [OF post] by blast
  also have "\<dots> = notifications_for new_id ?db0"
    using update_profile_notifications [OF prof] by (simp add: notifications_for_def)
  also have "\<dots> = notifications_for new_id db"
    by (simp add: register_creates [OF new] notifications_for_def)
  finally show ?thesis .
qed

lemma notify_seekers_users:
  assumes "n \<in> set (concat (map (notify_seeker lc req tgs)
                               (filter (\<lambda>u. role u = ustr ''seeker'') us)))"
  shows "\<exists>u \<in> set us. role u = ustr ''seeker'' \<and> notif_user_id n = user_id u"
proof -
  obtain u where u: "u \<in> set us" "role u = ustr ''seeker''"
      "n \<in> set (notify_seeker lc req tgs u)"
    using assms by auto
  from u(3) have "notif_user_id n = user_id u"
    by (rule notify_seeker_user)
  with u(1,2) show ?thesis by blast
qed

lemma hr_post_job_only_seekers:
  assumes "hr_post_job lc req new_job_id db = Inr db'"
  shows "\<exists>ns. notifications db' = notifications db @ ns \<and>
           (\<forall>n \<in> set ns. \<exists>u \<in> set (users db).
              role u = ustr ''seeker'' \<and> notif_user_id n = user_id u)"
proof (cases "set (map lc (case pj_tags req of None \<Rightarrow> [] | Some ts \<Rightarrow> ts)) = {}")
  case True
  then have "notifications db' = notifications db @ []"
    using assms
    by (auto simp: hr_post_job_def Let_def split: option.splits if_splits)
  then show ?thesis by fastforce
next
  case False
  let ?ns = "concat (map (notify_seeker lc req
                 (set (map lc (case pj_tags req of None \<Rightarrow> [] | Some ts \<Rightarrow> ts))))
               (filter (\<lambda>u. role u = ustr ''seeker'') (users db)))"
  have "notifications db' = notifications db @ ?ns"
    using assms False
    by (auto simp: hr_post_job_def Let_def split: option.splits if_splits)
  moreover have "\<forall>n \<in> set ?ns. \<exists>u \<in> set (users db).
      role u = ustr ''seeker'' \<and> notif_user_id n = user_id u"
    using notify_seekers_users by blast
  ultimately show ?thesis by blast
qed

lemmas job_defs = job_posted_def profiled_def registered_def with_recruiter_def then_do_def
  register_def update_profile_def hr_post_job_def notify_seeker_def notifications_for_def
  empty_store_def recruiter_def candidate_def python_job_def Let_def

lemma profiled_user:
  "update_profile (ustr ''id-sam'') [ustr ''python'', ustr ''sql''] (registered (ustr ''user'')) =
     Inr (profiled (ustr ''user''))"
  by (simp add: job_defs ustr_def)

lemma job_posted_user:
  "hr_post_job lower python_job (ustr ''kanso-1'') (profiled (ustr ''user'')) =
     Inr (job_posted (ustr ''user''))"
  by (simp add: job_defs ustr_def lower_def lower_cp_def)

lemma with_recruiter_users:
  "users with_recruiter =
     [\<lparr>user_id = ustr ''id-rita'', user_name = ustr ''Rita'', email = ustr ''rita@acme.example'',
       role = ustr ''hr'', skills = []\<rparr>]"
  "notifications with_recruiter = []"
  by (simp_all add: job_defs)

text \<open>
  C10, as the code has it.  \<open>hr_post_job\<close> adds notifications only for users whose
  role is \<open>seeker\<close>, and \<open>register\<close> stores the role of the request as it comes.
  So a user created by \<open>register\<close> with a role other than \<open>seeker\<close>, in particular
  with \<open>user\<close> or \<open>hr\<close>, has after a profile update and a job posting the
  notifications they had before, whatever the tags and the skills are.
\<close>

theorem registered_non_seeker_gets_no_match:
  assumes "req_role req \<noteq> ustr ''seeker''"
    and "find (\<lambda>u. email u = req_email req) (users db) = None"
    and "\<forall>u \<in> set (users db). user_id u \<noteq> new_id"
    and "update_profile new_id new_skills (snd (register req new_id db)) = Inr db1"
    and "hr_post_job lc post new_job_id db1 = Inr db2"
  shows "role (fst (register req new_id db)) = req_role req \<and>
         notifications_for new_id db2 = notifications_for new_id db \<and>
         (\<exists>ns. notifications db2 = notifications db1 @ ns \<and>
            (\<forall>n \<in> set ns. \<exists>u \<in> set (users db1).
               role u = ustr ''seeker'' \<and> notif_user_id n = user_id u))"
  using non_seeker_not_notified [OF assms] hr_post_job_only_seekers [OF assms(5)]
    register_creates [OF assms(2), of new_id]
  by simp

theorem registered_non_seeker_gets_no_match_witness:
  "req_role (candidate (ustr ''user'')) \<noteq> ustr ''seeker'' \<and>
   update_profile (ustr ''id-sam'') [ustr ''python'', ustr ''sql''] (registered (ustr ''user'')) =
     Inr (profiled (ustr ''user'')) \<and>
   hr_post_job lower python_job (ustr ''kanso-1'') (profiled (ustr ''user'')) =
     Inr (job_posted (ustr ''user'')) \<and>
   role (fst (register (candidate (ustr ''user'')) (ustr ''id-sam'') with_recruiter)) =
     ustr ''user'' \<and>
   notifications_for (ustr ''id-sam'') (job_posted (ustr ''user'')) = []"
proof -
  have a: "req_role (candidate (ustr ''user'')) \<noteq> ustr ''seeker''"
    by (simp add: candidate_def ustr_def)
  have b: "find (\<lambda>u. email u = req_email (candidate (ustr ''user''))) (users with_recruiter) = None"
    by (simp add: with_recruiter_users candidate_def ustr_def)
  have c: "\<forall>u \<in> set (users with_recruiter). user_id u \<noteq> ustr ''id-sam''"
    by (simp add: with_recruiter_users ustr_def)
  have d: "update_profile (ustr ''id-sam'') [ustr ''python'', ustr ''sql'']
             (snd (register (candidate (ustr ''user'')) (ustr ''id-sam'') with_recruiter)) =
           Inr (profiled (ustr ''user''))"
    using profiled_user by (simp add: registered_def)
  have e: "notifications_for (ustr ''id-sam'') with_recruiter = []"
    by (simp add: notifications_for_def with_recruiter_users)
  have f: "req_role (candidate (ustr ''user'')) = ustr ''user''"
    by (simp add: candidate_def)
  show ?thesis
    using registered_non_seeker_gets_no_match [OF a b c d job_posted_user] a profiled_user
      job_posted_user e f
    by simp
qed

text \<open>
  The claim C10 as written fails at a registration that asks for the role \<open>seeker\<close>:
  in the scenario below the request is accepted, the user is stored with that role and
  lists \<open>python\<close> among the skills, and the job tagged \<open>Python\<close> that is posted
  afterwards creates a job-match notification for them.
\<close>

theorem registered_seeker_counterexample:
  "role (fst (register (candidate (ustr ''seeker'')) (ustr ''id-sam'') with_recruiter)) =
     ustr ''seeker'' \<and>
   notifications_for (ustr ''id-sam'') with_recruiter = [] \<and>
   notifications_for (ustr ''id-sam'') (job_posted (ustr ''seeker'')) =
     [\<lparr>notif_user_id = ustr ''id-sam'', notif_title = ustr ''New job match: Backend Engineer'',
       link_page = ustr ''feed'', read = ustr ''false''\<rparr>]"
  by (simp add: job_defs ustr_def lower_def lower_cp_def)

end
